theory Spec2Isabelle
  imports Complex_Main "HOL-Library.Multiset"
begin

section \<open>Numbers of the script\<close>

text \<open>
  The script \<^verbatim>\<open>fix_tree_origin.py\<close> computes with Python floats. They are modelled
  as exact reals extended by the three special values the script can produce:
  \<^verbatim>\<open>float('inf')\<close>, \<^verbatim>\<open>float('-inf')\<close> (the initial accumulators of lines 21-22 and 63)
  and the not-a-number that \<^verbatim>\<open>inf + -inf\<close> yields. Rounding is not modelled: a finite
  value is a real number and arithmetic on finite values is exact.
\<close>

datatype pyfloat = NInf | Fin real | PInf | NaN

text \<open>Python's \<^verbatim>\<open>a < b\<close> on floats: every comparison with a NaN is false.\<close>

fun flt :: "pyfloat \<Rightarrow> pyfloat \<Rightarrow> bool" where
  "flt (Fin a) (Fin b) = (a < b)"
| "flt NInf (Fin b) = True"
| "flt NInf PInf = True"
| "flt (Fin a) PInf = True"
| "flt a b = False"

text \<open>Python's \<^verbatim>\<open>a <= b\<close> on floats.\<close>

fun fle :: "pyfloat \<Rightarrow> pyfloat \<Rightarrow> bool" where
  "fle (Fin a) (Fin b) = (a \<le> b)"
| "fle NInf (Fin b) = True"
| "fle NInf NInf = True"
| "fle NInf PInf = True"
| "fle (Fin a) PInf = True"
| "fle PInf PInf = True"
| "fle a b = False"

text \<open>
  The builtins \<^verbatim>\<open>min(a, b)\<close> and \<^verbatim>\<open>max(a, b)\<close> keep the first argument unless the second
  is strictly smaller (strictly greater).
\<close>

definition pymin :: "pyfloat \<Rightarrow> pyfloat \<Rightarrow> pyfloat" where
  "pymin a b = (if flt b a then b else a)"

definition pymax :: "pyfloat \<Rightarrow> pyfloat \<Rightarrow> pyfloat" where
  "pymax a b = (if flt a b then b else a)"

text \<open>Float addition \<^verbatim>\<open>a + b\<close>.\<close>

fun fadd :: "pyfloat \<Rightarrow> pyfloat \<Rightarrow> pyfloat" where
  "fadd (Fin a) (Fin b) = Fin (a + b)"
| "fadd NaN b = NaN"
| "fadd a NaN = NaN"
| "fadd PInf NInf = NaN"
| "fadd NInf PInf = NaN"
| "fadd PInf b = PInf"
| "fadd a PInf = PInf"
| "fadd NInf b = NInf"
| "fadd a NInf = NInf"

text \<open>Unary minus \<^verbatim>\<open>-a\<close>.\<close>

fun fneg :: "pyfloat \<Rightarrow> pyfloat" where
  "fneg (Fin a) = Fin (- a)"
| "fneg PInf = NInf"
| "fneg NInf = PInf"
| "fneg NaN = NaN"

text \<open>Division by the literal two, \<^verbatim>\<open>a / 2\<close>.\<close>

fun half :: "pyfloat \<Rightarrow> pyfloat" where
  "half (Fin a) = Fin (a / 2)"
| "half a = a"

datatype py_error = IndexError | ZeroDivisionError

text \<open>
  Division of a float by the integer counter of line 73, \<^verbatim>\<open>a / count\<close>: Python raises
  ZeroDivisionError when the counter is zero. The counter is never negative.
\<close>

fun truediv_count :: "pyfloat \<Rightarrow> nat \<Rightarrow> py_error + pyfloat" where
  "truediv_count a 0 = Inl ZeroDivisionError"
| "truediv_count (Fin a) n = Inr (Fin (a / real n))"
| "truediv_count a n = Inr a"

section \<open>Scene data\<close>

text \<open>
  A \<^verbatim>\<open>mathutils.Vector\<close> of three floats. The script builds one from the accumulators
  (line 47) and adds it to \<^verbatim>\<open>obj.location\<close> (line 52), so its components are script
  floats.
\<close>

record vector =
  vec_x :: pyfloat
  vec_y :: pyfloat
  vec_z :: pyfloat

definition vadd :: "vector \<Rightarrow> vector \<Rightarrow> vector" where
  "vadd u v = \<lparr>vec_x = fadd (vec_x u) (vec_x v),
              vec_y = fadd (vec_y u) (vec_y v),
              vec_z = fadd (vec_z u) (vec_z v)\<rparr>"

text \<open>
  The data the script only reads are finite numbers: a corner of \<^verbatim>\<open>obj.bound_box\<close> is a
  triple of reals, \<^verbatim>\<open>bound_box\<close> is an array of exactly eight of them, and the rotation
  and scale part of the object's world matrix is a 3x3 block of reals given by rows.
\<close>

type_synonym corner = "real \<times> real \<times> real"

datatype bound_box8 = BoundBox corner corner corner corner corner corner corner corner

fun corners :: "bound_box8 \<Rightarrow> corner list" where
  "corners (BoundBox c0 c1 c2 c3 c4 c5 c6 c7) = [c0, c1, c2, c3, c4, c5, c6, c7]"

type_synonym mat3 = "corner \<times> corner \<times> corner"

text \<open>
  A scene object. Its world matrix is assembled from \<^verbatim>\<open>location\<close> (the translation
  column) and the rotation and scale block, as for an object without a parent; this is
  the "world transform with a mutable world-space translation component" of the
  specification's data model.
\<close>

record mesh_object =
  name :: string
  obj_type :: string
  bound_box :: bound_box8
  rot_scale :: mat3
  location :: vector

text \<open>Line 14: the objects of the scene whose type is \<^verbatim>\<open>'MESH'\<close>.\<close>

definition collect_mesh_objects :: "mesh_object list \<Rightarrow> mesh_object list" where
  "collect_mesh_objects objects = filter (\<lambda>obj. obj_type obj = ''MESH'') objects"

definition dot3 :: "corner \<Rightarrow> corner \<Rightarrow> real" where
  "dot3 r c = (case r of (a, b, d) \<Rightarrow> case c of (cx, cy, cz) \<Rightarrow> a * cx + b * cy + d * cz)"

text \<open>
  Lines 27 and 69: \<^verbatim>\<open>obj.matrix_world @ mathutils.Vector(corner)\<close>, the affine image of a
  local corner: each row of the block times the corner, plus the translation.
\<close>

definition world_corner :: "mesh_object \<Rightarrow> corner \<Rightarrow> vector" where
  "world_corner obj c =
     (case rot_scale obj of (r0, r1, r2) \<Rightarrow>
        \<lparr>vec_x = fadd (Fin (dot3 r0 c)) (vec_x (location obj)),
         vec_y = fadd (Fin (dot3 r1 c)) (vec_y (location obj)),
         vec_z = fadd (Fin (dot3 r2 c)) (vec_z (location obj))\<rparr>)"

section \<open>Union bounding box (lines 21-33)\<close>

record box =
  min_x :: pyfloat
  min_y :: pyfloat
  min_z :: pyfloat
  max_x :: pyfloat
  max_y :: pyfloat
  max_z :: pyfloat

text \<open>Lines 21-22: the accumulators before the loop.\<close>

definition init_box :: box where
  "init_box = \<lparr>min_x = PInf, min_y = PInf, min_z = PInf,
               max_x = NInf, max_y = NInf, max_z = NInf\<rparr>"

text \<open>Lines 28-33: one corner is folded into the six accumulators.\<close>

definition bounds_step :: "vector \<Rightarrow> box \<Rightarrow> box" where
  "bounds_step w b =
     \<lparr>min_x = pymin (min_x b) (vec_x w),
      min_y = pymin (min_y b) (vec_y w),
      min_z = pymin (min_z b) (vec_z w),
      max_x = pymax (max_x b) (vec_x w),
      max_y = pymax (max_y b) (vec_y w),
      max_z = pymax (max_z b) (vec_z w)\<rparr>"

text \<open>Lines 24-33: the loop over the objects and, inside, over the eight corners.\<close>

definition computeUnionBounds :: "mesh_object list \<Rightarrow> box" where
  "computeUnionBounds mesh_objects =
     fold (\<lambda>obj. fold (\<lambda>c. bounds_step (world_corner obj c)) (corners (bound_box obj)))
       mesh_objects init_box"

text \<open>The world-space corners in the order the loops visit them.\<close>

definition visited_corners :: "mesh_object list \<Rightarrow> vector list" where
  "visited_corners mesh_objects =
     concat (map (\<lambda>obj. map (world_corner obj) (corners (bound_box obj))) mesh_objects)"

section \<open>Offset (lines 40-47) and its application (lines 51-52)\<close>

definition computeRecenterOffset :: "box \<Rightarrow> vector" where
  "computeRecenterOffset b =
     (let center_x = half (fadd (min_x b) (max_x b));
          center_y = half (fadd (min_y b) (max_y b));
          bottom_z = min_z b
      in \<lparr>vec_x = fneg center_x, vec_y = fneg center_y, vec_z = fneg bottom_z\<rparr>)"

definition applyOffset :: "mesh_object list \<Rightarrow> vector \<Rightarrow> mesh_object list" where
  "applyOffset mesh_objects off =
     map (\<lambda>obj. obj\<lparr>location := vadd (location obj) off\<rparr>) mesh_objects"

text \<open>
  Lines 21-58 in sequence. After the loop of line 51 the script reads
  \<^verbatim>\<open>mesh_objects[0]\<close> (line 58), which raises IndexError on an empty list. The operator
  calls of the host application in between are not part of the model.
\<close>

definition recenter :: "mesh_object list \<Rightarrow> py_error + mesh_object list" where
  "recenter mesh_objects =
     (let b = computeUnionBounds mesh_objects;
          off = computeRecenterOffset b;
          moved = applyOffset mesh_objects off
      in case moved of [] \<Rightarrow> Inl IndexError | active # rest \<Rightarrow> Inr moved)"

section \<open>Verification loop (lines 63-76)\<close>

record verify_acc =
  min_z_new :: pyfloat
  center_x_new :: pyfloat
  center_y_new :: pyfloat
  count_new :: nat

definition init_verify :: verify_acc where
  "init_verify = \<lparr>min_z_new = PInf, center_x_new = Fin 0, center_y_new = Fin 0, count_new = 0\<rparr>"

text \<open>Lines 70-73.\<close>

definition verify_step :: "vector \<Rightarrow> verify_acc \<Rightarrow> verify_acc" where
  "verify_step w a =
     \<lparr>min_z_new = pymin (min_z_new a) (vec_z w),
      center_x_new = fadd (center_x_new a) (vec_x w),
      center_y_new = fadd (center_y_new a) (vec_y w),
      count_new = count_new a + 1\<rparr>"

definition verify_loop :: "mesh_object list \<Rightarrow> verify_acc" where
  "verify_loop mesh_objects =
     fold (\<lambda>obj. fold (\<lambda>c. verify_step (world_corner obj c)) (corners (bound_box obj)))
       mesh_objects init_verify"

text \<open>
  Lines 63-76: the triple (minimum Z, mean X, mean Y); the two divisions by the counter
  raise when no corner was visited. The loop is run on whatever objects it is given: the
  transform baking of line 59, an operator of the host application, is not modelled, so
  the corners evaluated again are the images of the same local corners under the moved
  world transform.
\<close>

definition verifyRecenter :: "mesh_object list \<Rightarrow> py_error + (pyfloat \<times> pyfloat \<times> pyfloat)" where
  "verifyRecenter mesh_objects =
     (let a = verify_loop mesh_objects in
      case truediv_count (center_x_new a) (count_new a) of
        Inl e \<Rightarrow> Inl e
      | Inr cx \<Rightarrow>
          (case truediv_count (center_y_new a) (count_new a) of
             Inl e \<Rightarrow> Inl e
           | Inr cy \<Rightarrow> Inr (min_z_new a, cx, cy)))"

section \<open>Texture copy (lines 120-125)\<close>

text \<open>
  The two directories of the copy step, \<^verbatim>\<open>texture_src\<close> and \<^verbatim>\<open>export_dir\<close>, are distinct;
  each is a map from the name of a regular file to its content. \<^verbatim>\<open>os.path.exists(src)\<close> is
  the domain test of the source directory, \<^verbatim>\<open>shutil.copy2(src, dst)\<close> writes the content
  under the same name into the export directory, and \<^verbatim>\<open>print\<close> appends a line to the
  output.
\<close>

type_synonym directory = "string \<rightharpoonup> string"

record copy_state =
  export_dir :: directory
  printed :: "string list"

definition copy_step :: "directory \<Rightarrow> string \<Rightarrow> copy_state \<Rightarrow> copy_state" where
  "copy_step texture_src tex_file s =
     (case texture_src tex_file of
        Some content \<Rightarrow>
          s\<lparr>export_dir := (export_dir s)(tex_file \<mapsto> content),
            printed := printed s @ [''Copied: '' @ tex_file]\<rparr>
      | None \<Rightarrow> s)"

definition copy_textures :: "directory \<Rightarrow> string list \<Rightarrow> copy_state \<Rightarrow> copy_state" where
  "copy_textures texture_src texture_files s = fold (copy_step texture_src) texture_files s"

section \<open>Finite data and example scenes\<close>

text \<open>A float that is neither an infinity nor a NaN, and a vector of such floats.\<close>

fun is_fin :: "pyfloat \<Rightarrow> bool" where
  "is_fin (Fin a) = True"
| "is_fin a = False"

definition fin_vec :: "vector \<Rightarrow> bool" where
  "fin_vec v = (is_fin (vec_x v) \<and> is_fin (vec_y v) \<and> is_fin (vec_z v))"

text \<open>
  The \<^verbatim>\<open>bound_box\<close> array of a mesh whose local extents run from \<open>lo\<close> to \<open>hi\<close>, in the
  corner order of the host application.
\<close>

definition axis_box :: "corner \<Rightarrow> corner \<Rightarrow> bound_box8" where
  "axis_box lo hi =
     (case lo of (lx, ly, lz) \<Rightarrow> case hi of (hx, hy, hz) \<Rightarrow>
        BoundBox (lx, ly, lz) (lx, ly, hz) (lx, hy, hz) (lx, hy, lz)
                 (hx, ly, lz) (hx, ly, hz) (hx, hy, hz) (hx, hy, lz))"

definition identity3 :: mat3 where
  "identity3 = ((1, 0, 0), (0, 1, 0), (0, 0, 1))"

text \<open>The same eight corners, listed in the opposite order.\<close>

fun reversed_corners :: "bound_box8 \<Rightarrow> bound_box8" where
  "reversed_corners (BoundBox c0 c1 c2 c3 c4 c5 c6 c7) = BoundBox c7 c6 c5 c4 c3 c2 c1 c0"

text \<open>
  The unit cube spanning -0.5 .. 0.5 around its local origin, placed at (10, 5, 2) by a
  pure translation: the scenario of section 8 of the specification.
\<close>

definition cube_object :: mesh_object where
  "cube_object =
     \<lparr>name = ''Cube'', obj_type = ''MESH'',
      bound_box = axis_box (- 1/2, - 1/2, - 1/2) (1/2, 1/2, 1/2),
      rot_scale = identity3,
      location = \<lparr>vec_x = Fin 10, vec_y = Fin 5, vec_z = Fin 2\<rparr>\<rparr>"

text \<open>A scene of two meshes, a thin trunk and a wide crown, and a camera.\<close>

definition trunk_object :: mesh_object where
  "trunk_object =
     \<lparr>name = ''Trunk'', obj_type = ''MESH'',
      bound_box = axis_box (0, 0, 0) (1, 1, 4),
      rot_scale = identity3,
      location = \<lparr>vec_x = Fin 0, vec_y = Fin 0, vec_z = Fin 1\<rparr>\<rparr>"

definition crown_object :: mesh_object where
  "crown_object =
     \<lparr>name = ''Crown'', obj_type = ''MESH'',
      bound_box = axis_box (0, 0, 0) (8, 8, 8),
      rot_scale = identity3,
      location = \<lparr>vec_x = Fin 0, vec_y = Fin 0, vec_z = Fin 1\<rparr>\<rparr>"

definition camera_object :: mesh_object where
  "camera_object =
     \<lparr>name = ''Camera'', obj_type = ''CAMERA'',
      bound_box = axis_box (- 1, - 1, - 1) (1, 1, 1),
      rot_scale = identity3,
      location = \<lparr>vec_x = Fin 7, vec_y = Fin (- 7), vec_z = Fin 5\<rparr>\<rparr>"

section \<open>Facts about the float operations\<close>

lemma fadd_assoc: "fadd (fadd a b) c = fadd a (fadd b c)"
  by (cases a; cases b; cases c) simp_all

lemma fadd_commute: "fadd a b = fadd b a"
  by (cases a; cases b) simp_all


lemma vadd_sel:
  "vec_x (vadd u v) = fadd (vec_x u) (vec_x v)"
  "vec_y (vadd u v) = fadd (vec_y u) (vec_y v)"
  "vec_z (vadd u v) = fadd (vec_z u) (vec_z v)"
  by (simp_all add: vadd_def)

lemma pymin_left_commute: "pymin (pymin a v) w = pymin (pymin a w) v"
  by (cases a; cases v; cases w) (auto simp: pymin_def)

lemma pymax_left_commute: "pymax (pymax a v) w = pymax (pymax a w) v"
  by (cases a; cases v; cases w) (auto simp: pymax_def)

lemma pymin_shift: "pymin (fadd a (Fin d)) (fadd v (Fin d)) = fadd (pymin a v) (Fin d)"
  by (cases a; cases v) (simp_all add: pymin_def)

lemma pymax_shift: "pymax (fadd a (Fin d)) (fadd v (Fin d)) = fadd (pymax a v) (Fin d)"
  by (cases a; cases v) (simp_all add: pymax_def)

lemma fle_trans: "fle a b \<Longrightarrow> fle b c \<Longrightarrow> fle a c"
  by (cases a; cases b; cases c) simp_all

lemma fle_pymin: "is_fin v \<Longrightarrow> a \<noteq> NaN \<Longrightarrow> fle (pymin a v) a \<and> fle (pymin a v) v \<and> pymin a v \<noteq> NaN"
  by (cases a; cases v) (simp_all add: pymin_def)

lemma fle_pymax: "is_fin v \<Longrightarrow> a \<noteq> NaN \<Longrightarrow> fle a (pymax a v) \<and> fle v (pymax a v) \<and> pymax a v \<noteq> NaN"
  by (cases a; cases v) (simp_all add: pymax_def)

lemma is_fin_fadd: "is_fin a \<Longrightarrow> is_fin (fadd (Fin d) a)"
  by (cases a) simp_all




lemma truediv_count_shift:
  assumes "n \<noteq> 0" and "truediv_count s n = Inr m"
  shows "truediv_count (fadd s (Fin (d * real n))) n = Inr (fadd m (Fin d))"
  using assms by (cases n; cases s) (auto simp: field_simps)

section \<open>The nested loops as one fold over the visited corners\<close>

lemma fold_nested_concat:
  "fold (\<lambda>obj. fold (\<lambda>c. f (g obj c)) (h obj)) objs s =
   fold f (concat (map (\<lambda>obj. map (g obj) (h obj)) objs)) s"
  by (induction objs arbitrary: s) (simp_all add: fold_map comp_def)

lemma computeUnionBounds_fold:
  "computeUnionBounds objs = fold bounds_step (visited_corners objs) init_box"
  unfolding computeUnionBounds_def visited_corners_def
  by (rule fold_nested_concat [of bounds_step world_corner "\<lambda>obj. corners (bound_box obj)"])

lemma verify_loop_fold:
  "verify_loop objs = fold verify_step (visited_corners objs) init_verify"
  unfolding verify_loop_def visited_corners_def
  by (rule fold_nested_concat [of verify_step world_corner "\<lambda>obj. corners (bound_box obj)"])

lemma length_visited_corners: "length (visited_corners objs) = 8 * length objs"
proof (induction objs)
  case Nil
  show ?case by (simp add: visited_corners_def)
next
  case (Cons obj objs)
  have "length (corners (bound_box obj)) = 8" by (cases "bound_box obj") simp
  with Cons show ?case by (simp add: visited_corners_def)
qed

lemma visited_corners_nonempty: "objs \<noteq> [] \<Longrightarrow> visited_corners objs \<noteq> []"
  by (cases objs; cases "bound_box (hd objs)") (simp_all add: visited_corners_def)

lemma fin_world_corner: "fin_vec (location obj) \<Longrightarrow> fin_vec (world_corner obj c)"
  by (cases "rot_scale obj") (simp add: fin_vec_def world_corner_def is_fin_fadd)

lemma fin_visited_corners:
  "\<forall>obj\<in>set objs. fin_vec (location obj) \<Longrightarrow> \<forall>w\<in>set (visited_corners objs). fin_vec w"
  by (auto simp: visited_corners_def fin_world_corner)

section \<open>The accumulators of the union loop\<close>

lemma bounds_step_sel:
  "min_x (bounds_step w b) = pymin (min_x b) (vec_x w)"
  "min_y (bounds_step w b) = pymin (min_y b) (vec_y w)"
  "min_z (bounds_step w b) = pymin (min_z b) (vec_z w)"
  "max_x (bounds_step w b) = pymax (max_x b) (vec_x w)"
  "max_y (bounds_step w b) = pymax (max_y b) (vec_y w)"
  "max_z (bounds_step w b) = pymax (max_z b) (vec_z w)"
  by (simp_all add: bounds_step_def)

lemma init_box_sel:
  "min_x init_box = PInf" "min_y init_box = PInf" "min_z init_box = PInf"
  "max_x init_box = NInf" "max_y init_box = NInf" "max_z init_box = NInf"
  by (simp_all add: init_box_def)

lemma fold_bounds_step_sel:
  "min_x (fold bounds_step ws b) = fold (\<lambda>v a. pymin a v) (map vec_x ws) (min_x b)"
  "min_y (fold bounds_step ws b) = fold (\<lambda>v a. pymin a v) (map vec_y ws) (min_y b)"
  "min_z (fold bounds_step ws b) = fold (\<lambda>v a. pymin a v) (map vec_z ws) (min_z b)"
  "max_x (fold bounds_step ws b) = fold (\<lambda>v a. pymax a v) (map vec_x ws) (max_x b)"
  "max_y (fold bounds_step ws b) = fold (\<lambda>v a. pymax a v) (map vec_y ws) (max_y b)"
  "max_z (fold bounds_step ws b) = fold (\<lambda>v a. pymax a v) (map vec_z ws) (max_z b)"
  by (induction ws arbitrary: b) (simp_all add: bounds_step_sel)

lemma union_min_sel:
  "min_x (computeUnionBounds objs) = fold (\<lambda>v a. pymin a v) (map vec_x (visited_corners objs)) PInf"
  "min_y (computeUnionBounds objs) = fold (\<lambda>v a. pymin a v) (map vec_y (visited_corners objs)) PInf"
  "min_z (computeUnionBounds objs) = fold (\<lambda>v a. pymin a v) (map vec_z (visited_corners objs)) PInf"
  by (simp_all add: computeUnionBounds_fold fold_bounds_step_sel init_box_sel)

lemma union_max_sel:
  "max_x (computeUnionBounds objs) = fold (\<lambda>v a. pymax a v) (map vec_x (visited_corners objs)) NInf"
  "max_y (computeUnionBounds objs) = fold (\<lambda>v a. pymax a v) (map vec_y (visited_corners objs)) NInf"
  "max_z (computeUnionBounds objs) = fold (\<lambda>v a. pymax a v) (map vec_z (visited_corners objs)) NInf"
  by (simp_all add: computeUnionBounds_fold fold_bounds_step_sel init_box_sel)

text \<open>
  Folding \<^const>\<open>pymin\<close> over finite values never raises the accumulator, stays below
  every value folded in, and returns the start value or one of the values.
\<close>

lemma fold_pymin_bounds:
  "\<forall>v\<in>set vs. is_fin v \<Longrightarrow> a \<noteq> NaN \<Longrightarrow>
   fle (fold (\<lambda>v a. pymin a v) vs a) a \<and> (\<forall>v\<in>set vs. fle (fold (\<lambda>v a. pymin a v) vs a) v) \<and>
   (fold (\<lambda>v a. pymin a v) vs a = a \<or> fold (\<lambda>v a. pymin a v) vs a \<in> set vs)"
proof (induction vs arbitrary: a)
  case Nil
  then show ?case by (cases a) simp_all
next
  case (Cons v vs)
  let ?r = "fold (\<lambda>v a. pymin a v) vs (pymin a v)"
  have v: "is_fin v" and vs: "\<forall>u\<in>set vs. is_fin u" using Cons.prems(1) by simp_all
  note p = fle_pymin [OF v Cons.prems(2)]
  from Cons.IH [OF vs, of "pymin a v"] p
  have ih: "fle ?r (pymin a v)" "\<forall>u\<in>set vs. fle ?r u" "?r = pymin a v \<or> ?r \<in> set vs"
    by simp_all
  have "fle ?r a" using ih(1) p fle_trans by blast
  moreover have "fle ?r v" using ih(1) p fle_trans by blast
  moreover have "?r = a \<or> ?r = v \<or> ?r \<in> set vs"
    using ih(3) by (auto simp: pymin_def)
  ultimately show ?case using ih(2) by auto
qed

lemma fold_pymax_bounds:
  "\<forall>v\<in>set vs. is_fin v \<Longrightarrow> a \<noteq> NaN \<Longrightarrow>
   fle a (fold (\<lambda>v a. pymax a v) vs a) \<and> (\<forall>v\<in>set vs. fle v (fold (\<lambda>v a. pymax a v) vs a)) \<and>
   (fold (\<lambda>v a. pymax a v) vs a = a \<or> fold (\<lambda>v a. pymax a v) vs a \<in> set vs)"
proof (induction vs arbitrary: a)
  case Nil
  then show ?case by (cases a) simp_all
next
  case (Cons v vs)
  let ?r = "fold (\<lambda>v a. pymax a v) vs (pymax a v)"
  have v: "is_fin v" and vs: "\<forall>u\<in>set vs. is_fin u" using Cons.prems(1) by simp_all
  note p = fle_pymax [OF v Cons.prems(2)]
  from Cons.IH [OF vs, of "pymax a v"] p
  have ih: "fle (pymax a v) ?r" "\<forall>u\<in>set vs. fle u ?r" "?r = pymax a v \<or> ?r \<in> set vs"
    by simp_all
  have "fle a ?r" using ih(1) p fle_trans by blast
  moreover have "fle v ?r" using ih(1) p fle_trans by blast
  moreover have "?r = a \<or> ?r = v \<or> ?r \<in> set vs"
    using ih(3) by (auto simp: pymax_def)
  ultimately show ?case using ih(2) by auto
qed

text \<open>Over a non-empty list of finite values the fold from +inf is a least element.\<close>

lemma fold_pymin_least:
  assumes "\<forall>v\<in>set vs. is_fin v" and "vs \<noteq> []"
  shows "(\<forall>v\<in>set vs. fle (fold (\<lambda>v a. pymin a v) vs PInf) v) \<and> fold (\<lambda>v a. pymin a v) vs PInf \<in> set vs"
proof -
  let ?r = "fold (\<lambda>v a. pymin a v) vs PInf"
  from fold_pymin_bounds [OF assms(1), of PInf]
  have b: "\<forall>v\<in>set vs. fle ?r v" and c: "?r = PInf \<or> ?r \<in> set vs" by simp_all
  obtain v where v: "v \<in> set vs" using assms(2) by (cases vs) auto
  then have "is_fin v" "fle ?r v" using assms(1) b by simp_all
  then have "?r \<noteq> PInf" by (cases v) auto
  with b c show ?thesis by simp
qed

lemma fold_pymax_greatest:
  assumes "\<forall>v\<in>set vs. is_fin v" and "vs \<noteq> []"
  shows "(\<forall>v\<in>set vs. fle v (fold (\<lambda>v a. pymax a v) vs NInf)) \<and> fold (\<lambda>v a. pymax a v) vs NInf \<in> set vs"
proof -
  let ?r = "fold (\<lambda>v a. pymax a v) vs NInf"
  from fold_pymax_bounds [OF assms(1), of NInf]
  have b: "\<forall>v\<in>set vs. fle v ?r" and c: "?r = NInf \<or> ?r \<in> set vs" by simp_all
  obtain v where v: "v \<in> set vs" using assms(2) by (cases vs) auto
  then have "is_fin v" "fle v ?r" using assms(1) b by simp_all
  then have "?r \<noteq> NInf" by (cases v) auto
  with b c show ?thesis by simp
qed

lemma coord_least:
  assumes "ws \<noteq> []" and "\<forall>w\<in>set ws. is_fin (f w)"
  shows "(\<forall>w\<in>set ws. fle (fold (\<lambda>v a. pymin a v) (map f ws) PInf) (f w)) \<and>
         (\<exists>w\<in>set ws. f w = fold (\<lambda>v a. pymin a v) (map f ws) PInf)"
proof -
  have "\<forall>v\<in>set (map f ws). is_fin v" "map f ws \<noteq> []" using assms by simp_all
  from fold_pymin_least [OF this] show ?thesis by auto
qed

lemma coord_greatest:
  assumes "ws \<noteq> []" and "\<forall>w\<in>set ws. is_fin (f w)"
  shows "(\<forall>w\<in>set ws. fle (f w) (fold (\<lambda>v a. pymax a v) (map f ws) NInf)) \<and>
         (\<exists>w\<in>set ws. f w = fold (\<lambda>v a. pymax a v) (map f ws) NInf)"
proof -
  have "\<forall>v\<in>set (map f ws). is_fin v" "map f ws \<noteq> []" using assms by simp_all
  from fold_pymax_greatest [OF this] show ?thesis by auto
qed


section \<open>Order of the visits\<close>

lemma bounds_step_commute: "bounds_step v \<circ> bounds_step w = bounds_step w \<circ> bounds_step v"
proof
  fix b
  have "bounds_step v (bounds_step w b) = bounds_step w (bounds_step v b)"
  proof (rule box.equality)
    show "min_x (bounds_step v (bounds_step w b)) = min_x (bounds_step w (bounds_step v b))"
      unfolding bounds_step_sel by (rule pymin_left_commute)
    show "min_y (bounds_step v (bounds_step w b)) = min_y (bounds_step w (bounds_step v b))"
      unfolding bounds_step_sel by (rule pymin_left_commute)
    show "min_z (bounds_step v (bounds_step w b)) = min_z (bounds_step w (bounds_step v b))"
      unfolding bounds_step_sel by (rule pymin_left_commute)
    show "max_x (bounds_step v (bounds_step w b)) = max_x (bounds_step w (bounds_step v b))"
      unfolding bounds_step_sel by (rule pymax_left_commute)
    show "max_y (bounds_step v (bounds_step w b)) = max_y (bounds_step w (bounds_step v b))"
      unfolding bounds_step_sel by (rule pymax_left_commute)
    show "max_z (bounds_step v (bounds_step w b)) = max_z (bounds_step w (bounds_step v b))"
      unfolding bounds_step_sel by (rule pymax_left_commute)
  qed simp
  then show "(bounds_step v \<circ> bounds_step w) b = (bounds_step w \<circ> bounds_step v) b"
    by simp
qed

lemma mset_concat_sum: "mset (concat xss) = sum_mset (image_mset mset (mset xss))"
  by (induction xss) simp_all

lemma mset_visited_corners:
  assumes "mset objs = mset objs'"
  shows "mset (visited_corners objs) = mset (visited_corners objs')"
proof -
  let ?f = "\<lambda>obj. map (world_corner obj) (corners (bound_box obj))"
  have "mset (map ?f objs) = mset (map ?f objs')"
    using assms by simp
  then show ?thesis
    unfolding visited_corners_def mset_concat_sum by (rule arg_cong)
qed

lemma fold_bounds_step_mset:
  assumes "mset ws = mset ws'"
  shows "fold bounds_step ws b = fold bounds_step ws' b"
  by (rule arg_cong [OF fold_multiset_equiv [OF bounds_step_commute assms]])

section \<open>Moving the objects\<close>

text \<open>
  Adding an offset to the location adds it to every world corner; a finite offset shifts
  every bound of the union box by its component.
\<close>

lemma world_corner_moved:
  "world_corner (obj\<lparr>location := vadd (location obj) off\<rparr>) c = vadd (world_corner obj c) off"
  by (cases "rot_scale obj") (simp add: world_corner_def vadd_def fadd_assoc)

lemma visited_corners_applyOffset:
  "visited_corners (applyOffset objs off) = map (\<lambda>w. vadd w off) (visited_corners objs)"
  by (induction objs) (simp_all add: visited_corners_def applyOffset_def world_corner_moved)

lemma fold_pymin_shift:
  "fold (\<lambda>v a. pymin a v) (map (\<lambda>v. fadd v (Fin d)) vs) (fadd a (Fin d)) =
   fadd (fold (\<lambda>v a. pymin a v) vs a) (Fin d)"
  by (induction vs arbitrary: a) (simp_all add: pymin_shift)

lemma fold_pymax_shift:
  "fold (\<lambda>v a. pymax a v) (map (\<lambda>v. fadd v (Fin d)) vs) (fadd a (Fin d)) =
   fadd (fold (\<lambda>v a. pymax a v) vs a) (Fin d)"
  by (induction vs arbitrary: a) (simp_all add: pymax_shift)

lemma moved_min:
  assumes "\<And>w. f (vadd w off) = fadd (f w) (Fin d)"
  shows "fold (\<lambda>v a. pymin a v) (map f (map (\<lambda>w. vadd w off) ws)) (fadd a (Fin d)) =
         fadd (fold (\<lambda>v a. pymin a v) (map f ws) a) (Fin d)"
  by (induction ws arbitrary: a) (simp_all add: assms pymin_shift)

lemma moved_max:
  assumes "\<And>w. f (vadd w off) = fadd (f w) (Fin d)"
  shows "fold (\<lambda>v a. pymax a v) (map f (map (\<lambda>w. vadd w off) ws)) (fadd a (Fin d)) =
         fadd (fold (\<lambda>v a. pymax a v) (map f ws) a) (Fin d)"
  by (induction ws arbitrary: a) (simp_all add: assms pymax_shift)

lemma union_bounds_moved:
  fixes ox oy oz :: real
  defines "off \<equiv> \<lparr>vec_x = Fin ox, vec_y = Fin oy, vec_z = Fin oz\<rparr>"
  shows "min_x (computeUnionBounds (applyOffset objs off)) = fadd (min_x (computeUnionBounds objs)) (Fin ox)"
    and "min_y (computeUnionBounds (applyOffset objs off)) = fadd (min_y (computeUnionBounds objs)) (Fin oy)"
    and "min_z (computeUnionBounds (applyOffset objs off)) = fadd (min_z (computeUnionBounds objs)) (Fin oz)"
    and "max_x (computeUnionBounds (applyOffset objs off)) = fadd (max_x (computeUnionBounds objs)) (Fin ox)"
    and "max_y (computeUnionBounds (applyOffset objs off)) = fadd (max_y (computeUnionBounds objs)) (Fin oy)"
    and "max_z (computeUnionBounds (applyOffset objs off)) = fadd (max_z (computeUnionBounds objs)) (Fin oz)"
proof -
  have x: "\<And>w. vec_x (vadd w off) = fadd (vec_x w) (Fin ox)"
    and y: "\<And>w. vec_y (vadd w off) = fadd (vec_y w) (Fin oy)"
    and z: "\<And>w. vec_z (vadd w off) = fadd (vec_z w) (Fin oz)"
    by (simp_all add: vadd_sel off_def)
  show "min_x (computeUnionBounds (applyOffset objs off)) = fadd (min_x (computeUnionBounds objs)) (Fin ox)"
    unfolding union_min_sel visited_corners_applyOffset using moved_min [of vec_x off ox _ PInf, OF x] by simp
  show "min_y (computeUnionBounds (applyOffset objs off)) = fadd (min_y (computeUnionBounds objs)) (Fin oy)"
    unfolding union_min_sel visited_corners_applyOffset using moved_min [of vec_y off oy _ PInf, OF y] by simp
  show "min_z (computeUnionBounds (applyOffset objs off)) = fadd (min_z (computeUnionBounds objs)) (Fin oz)"
    unfolding union_min_sel visited_corners_applyOffset using moved_min [of vec_z off oz _ PInf, OF z] by simp
  show "max_x (computeUnionBounds (applyOffset objs off)) = fadd (max_x (computeUnionBounds objs)) (Fin ox)"
    unfolding union_max_sel visited_corners_applyOffset using moved_max [of vec_x off ox _ NInf, OF x] by simp
  show "max_y (computeUnionBounds (applyOffset objs off)) = fadd (max_y (computeUnionBounds objs)) (Fin oy)"
    unfolding union_max_sel visited_corners_applyOffset using moved_max [of vec_y off oy _ NInf, OF y] by simp
  show "max_z (computeUnionBounds (applyOffset objs off)) = fadd (max_z (computeUnionBounds objs)) (Fin oz)"
    unfolding union_max_sel visited_corners_applyOffset using moved_max [of vec_z off oz _ NInf, OF z] by simp
qed



section \<open>The accumulators of the verification loop\<close>

lemma verify_step_sel:
  "min_z_new (verify_step w a) = pymin (min_z_new a) (vec_z w)"
  "count_new (verify_step w a) = count_new a + 1"
  by (simp_all add: verify_step_def)

lemma fold_verify_step_sel:
  "min_z_new (fold verify_step ws a) = fold (\<lambda>v a. pymin a v) (map vec_z ws) (min_z_new a)"
  "count_new (fold verify_step ws a) = count_new a + length ws"
  by (induction ws arbitrary: a) (simp_all add: verify_step_sel)

lemma verify_loop_sel:
  "min_z_new (verify_loop objs) = min_z (computeUnionBounds objs)"
  "count_new (verify_loop objs) = 8 * length objs"
  by (simp_all add: verify_loop_fold fold_verify_step_sel union_min_sel init_verify_def
      length_visited_corners)


lemma verify_step_center_sel:
  "center_x_new (verify_step w a) = fadd (center_x_new a) (vec_x w)"
  "center_y_new (verify_step w a) = fadd (center_y_new a) (vec_y w)"
  by (simp_all add: verify_step_def)

lemma fold_verify_step_center_sel:
  "center_x_new (fold verify_step ws a) = fold (\<lambda>v a. fadd a v) (map vec_x ws) (center_x_new a)"
  "center_y_new (fold verify_step ws a) = fold (\<lambda>v a. fadd a v) (map vec_y ws) (center_y_new a)"
  by (induction ws arbitrary: a) (simp_all add: verify_step_center_sel)

lemma fold_fadd_shift_acc:
  "fold (\<lambda>v a. fadd a v) vs (fadd a (Fin e)) = fadd (fold (\<lambda>v a. fadd a v) vs a) (Fin e)"
proof (induction vs arbitrary: a)
  case Nil
  show ?case by simp
next
  case (Cons v vs)
  have "fadd (fadd a (Fin e)) v = fadd (fadd a v) (Fin e)"
    by (simp add: fadd_assoc fadd_commute [of "Fin e" v])
  then show ?case using Cons [of "fadd a v"] by simp
qed

lemma fold_fadd_shift:
  "fold (\<lambda>v a. fadd a v) (map (\<lambda>v. fadd v (Fin d)) vs) a =
   fadd (fold (\<lambda>v a. fadd a v) vs a) (Fin (d * real (length vs)))"
proof (induction vs arbitrary: a)
  case Nil
  show ?case by (cases a) simp_all
next
  case (Cons v vs)
  have "fold (\<lambda>v a. fadd a v) (map (\<lambda>v. fadd v (Fin d)) (v # vs)) a =
        fold (\<lambda>v a. fadd a v) (map (\<lambda>v. fadd v (Fin d)) vs) (fadd (fadd a v) (Fin d))"
    by (simp add: fadd_assoc)
  also have "\<dots> = fadd (fold (\<lambda>v a. fadd a v) vs (fadd (fadd a v) (Fin d))) (Fin (d * real (length vs)))"
    by (rule Cons)
  also have "\<dots> = fadd (fadd (fold (\<lambda>v a. fadd a v) vs (fadd a v)) (Fin d)) (Fin (d * real (length vs)))"
    by (simp only: fold_fadd_shift_acc)
  also have "\<dots> = fadd (fold (\<lambda>v a. fadd a v) (v # vs) a) (Fin (d * real (length (v # vs))))"
    by (simp add: fadd_assoc algebra_simps)
  finally show ?case .
qed

lemma moved_sum:
  assumes "\<And>w. f (vadd w off) = fadd (f w) (Fin d)"
  shows "fold (\<lambda>v a. fadd a v) (map f (map (\<lambda>w. vadd w off) ws)) a =
         fadd (fold (\<lambda>v a. fadd a v) (map f ws) a) (Fin (d * real (length ws)))"
proof -
  have "map f (map (\<lambda>w. vadd w off) ws) = map (\<lambda>v. fadd v (Fin d)) (map f ws)"
    by (simp add: assms)
  then have "fold (\<lambda>v a. fadd a v) (map f (map (\<lambda>w. vadd w off) ws)) a =
    fold (\<lambda>v a. fadd a v) (map (\<lambda>v. fadd v (Fin d)) (map f ws)) a"
    by (rule arg_cong)
  also have "\<dots> = fadd (fold (\<lambda>v a. fadd a v) (map f ws) a) (Fin (d * real (length (map f ws))))"
    by (rule fold_fadd_shift)
  finally show ?thesis by (simp only: length_map)
qed

text \<open>
  What the verification loop reports after a finite offset has been applied: each of the
  three numbers it reported before, plus the matching component of the offset.
\<close>

lemma verifyRecenter_applyOffset:
  fixes ox oy oz :: real
  defines "off \<equiv> \<lparr>vec_x = Fin ox, vec_y = Fin oy, vec_z = Fin oz\<rparr>"
  assumes "verifyRecenter objs = Inr (mz, cx, cy)"
  shows "verifyRecenter (applyOffset objs off) =
           Inr (fadd mz (Fin oz), fadd cx (Fin ox), fadd cy (Fin oy))"
proof -
  let ?a = "verify_loop objs" and ?a' = "verify_loop (applyOffset objs off)"
  let ?n = "8 * length objs"
  have n: "count_new ?a = ?n" "count_new ?a' = ?n"
    by (simp_all add: verify_loop_sel applyOffset_def)
  have old: "truediv_count (center_x_new ?a) ?n = Inr cx"
    "truediv_count (center_y_new ?a) ?n = Inr cy" "min_z_new ?a = mz"
    using assms(2) by (auto simp: verifyRecenter_def Let_def n split: sum.splits)
  then have n0: "?n \<noteq> 0" by (cases "?n = 0") simp_all
  have x: "\<And>w. vec_x (vadd w off) = fadd (vec_x w) (Fin ox)"
    and y: "\<And>w. vec_y (vadd w off) = fadd (vec_y w) (Fin oy)"
    by (simp_all add: vadd_sel off_def)
  have len: "real (length (visited_corners objs)) = real ?n"
    by (simp add: length_visited_corners)
  have sx: "center_x_new ?a' = fadd (center_x_new ?a) (Fin (ox * real ?n))"
    unfolding verify_loop_fold fold_verify_step_center_sel visited_corners_applyOffset
      moved_sum [of vec_x off ox, OF x] len ..
  have sy: "center_y_new ?a' = fadd (center_y_new ?a) (Fin (oy * real ?n))"
    unfolding verify_loop_fold fold_verify_step_center_sel visited_corners_applyOffset
      moved_sum [of vec_y off oy, OF y] len ..
  have mz': "min_z_new ?a' = fadd mz (Fin oz)"
    using old(3) by (simp add: verify_loop_sel union_bounds_moved off_def)
  have cx': "truediv_count (center_x_new ?a') (count_new ?a') = Inr (fadd cx (Fin ox))"
    unfolding sx n by (rule truediv_count_shift [OF n0 old(1)])
  have cy': "truediv_count (center_y_new ?a') (count_new ?a') = Inr (fadd cy (Fin oy))"
    unfolding sy n by (rule truediv_count_shift [OF n0 old(2)])
  show ?thesis
    by (simp add: verifyRecenter_def Let_def cx' cy' mz')
qed

section \<open>Texture copy\<close>

lemma export_dir_copy_step:
  "export_dir (copy_step src f s) = export_dir s ++ (src |` {f})"
  by (rule ext) (simp add: copy_step_def map_add_def restrict_map_def split: option.splits)

lemma printed_copy_step:
  "printed (copy_step src f s) =
     printed s @ map (\<lambda>f. ''Copied: '' @ f) (filter (\<lambda>f. src f \<noteq> None) [f])"
  by (simp add: copy_step_def split: option.splits)

lemma restrict_insert_add: "(src |` {f}) ++ (src |` A) = src |` insert f A"
  by (rule ext) (simp add: map_add_def restrict_map_def split: option.splits)

section \<open>Evaluation\<close>

lemmas example_defs = cube_object_def trunk_object_def crown_object_def axis_box_def identity3_def

lemmas run_defs = computeUnionBounds_def computeRecenterOffset_def applyOffset_def
  bounds_step_def world_corner_def dot3_def init_box_def pymin_def pymax_def vadd_def

section \<open>The claims\<close>

text \<open>
  C1. For every non-empty sequence of mesh objects with finite coordinates,
  \<^const>\<open>computeUnionBounds\<close> returns the componentwise minimum and maximum over the
  eight world-space corners of every object: each visited corner lies inside the box on
  all three axes, and each of the six bounds is the coordinate of some visited corner.
\<close>

theorem computeUnionBounds_componentwise_min_max:
  assumes "mesh_objects \<noteq> []" and "\<forall>obj\<in>set mesh_objects. fin_vec (location obj)"
  shows "length (visited_corners mesh_objects) = 8 * length mesh_objects \<and>
    (\<forall>w\<in>set (visited_corners mesh_objects).
        fle (min_x (computeUnionBounds mesh_objects)) (vec_x w) \<and>
        fle (vec_x w) (max_x (computeUnionBounds mesh_objects)) \<and>
        fle (min_y (computeUnionBounds mesh_objects)) (vec_y w) \<and>
        fle (vec_y w) (max_y (computeUnionBounds mesh_objects)) \<and>
        fle (min_z (computeUnionBounds mesh_objects)) (vec_z w) \<and>
        fle (vec_z w) (max_z (computeUnionBounds mesh_objects))) \<and>
    (\<exists>w\<in>set (visited_corners mesh_objects). vec_x w = min_x (computeUnionBounds mesh_objects)) \<and>
    (\<exists>w\<in>set (visited_corners mesh_objects). vec_x w = max_x (computeUnionBounds mesh_objects)) \<and>
    (\<exists>w\<in>set (visited_corners mesh_objects). vec_y w = min_y (computeUnionBounds mesh_objects)) \<and>
    (\<exists>w\<in>set (visited_corners mesh_objects). vec_y w = max_y (computeUnionBounds mesh_objects)) \<and>
    (\<exists>w\<in>set (visited_corners mesh_objects). vec_z w = min_z (computeUnionBounds mesh_objects)) \<and>
    (\<exists>w\<in>set (visited_corners mesh_objects). vec_z w = max_z (computeUnionBounds mesh_objects))"
proof -
  let ?ws = "visited_corners mesh_objects"
  have ne: "?ws \<noteq> []" using assms(1) by (rule visited_corners_nonempty)
  have fin: "\<forall>w\<in>set ?ws. fin_vec w" using assms(2) by (rule fin_visited_corners)
  have fx: "\<forall>w\<in>set ?ws. is_fin (vec_x w)" and fy: "\<forall>w\<in>set ?ws. is_fin (vec_y w)"
    and fz: "\<forall>w\<in>set ?ws. is_fin (vec_z w)"
    using fin by (simp_all add: fin_vec_def)
  note lx = coord_least [OF ne fx, folded union_min_sel]
    and ly = coord_least [OF ne fy, folded union_min_sel]
    and lz = coord_least [OF ne fz, folded union_min_sel]
    and gx = coord_greatest [OF ne fx, folded union_max_sel]
    and gy = coord_greatest [OF ne fy, folded union_max_sel]
    and gz = coord_greatest [OF ne fz, folded union_max_sel]
  have "\<forall>w\<in>set ?ws.
        fle (min_x (computeUnionBounds mesh_objects)) (vec_x w) \<and>
        fle (vec_x w) (max_x (computeUnionBounds mesh_objects)) \<and>
        fle (min_y (computeUnionBounds mesh_objects)) (vec_y w) \<and>
        fle (vec_y w) (max_y (computeUnionBounds mesh_objects)) \<and>
        fle (min_z (computeUnionBounds mesh_objects)) (vec_z w) \<and>
        fle (vec_z w) (max_z (computeUnionBounds mesh_objects))"
    using lx ly lz gx gy gz by blast
  then show ?thesis
    using lx ly lz gx gy gz length_visited_corners [of mesh_objects] by blast
qed

theorem computeUnionBounds_componentwise_min_max_witness:
  "[trunk_object, crown_object] \<noteq> [] \<and>
   fin_vec (location trunk_object) \<and> fin_vec (location crown_object) \<and>
   length (visited_corners [trunk_object, crown_object]) = 8 * length [trunk_object, crown_object] \<and>
   fle (min_x (computeUnionBounds [trunk_object, crown_object]))
       (vec_x (world_corner trunk_object (1, 1, 4))) \<and>
   fle (vec_z (world_corner trunk_object (1, 1, 4)))
       (max_z (computeUnionBounds [trunk_object, crown_object])) \<and>
   (\<exists>w\<in>set (visited_corners [trunk_object, crown_object]).
        vec_z w = max_z (computeUnionBounds [trunk_object, crown_object]))"
proof -
  have ne: "[trunk_object, crown_object] \<noteq> []" by simp
  have ft: "fin_vec (location trunk_object)" and fc: "fin_vec (location crown_object)"
    by (simp_all add: trunk_object_def crown_object_def fin_vec_def)
  then have fin: "\<forall>obj\<in>set [trunk_object, crown_object]. fin_vec (location obj)"
    by simp
  have m: "world_corner trunk_object (1, 1, 4) \<in> set (visited_corners [trunk_object, crown_object])"
    by (simp add: visited_corners_def trunk_object_def axis_box_def)
  from computeUnionBounds_componentwise_min_max [OF ne fin] ne ft fc m show ?thesis
    by blast
qed





text \<open>
  C4 as stated does not hold: on the empty sequence the union loop raises nothing and
  returns the degenerate box with every minimum at +inf and every maximum at -inf.
\<close>

theorem empty_union_bounds_counterexample:
  "computeUnionBounds [] =
     \<lparr>min_x = PInf, min_y = PInf, min_z = PInf, max_x = NInf, max_y = NInf, max_z = NInf\<rparr>"
  by (simp add: computeUnionBounds_def init_box_def)

text \<open>
  C4, amended. When the scene holds no mesh object, the union loop returns the degenerate
  box, the offset built from it is (NaN, NaN, -inf), the offset loop changes no object,
  and the run stops with IndexError at \<^verbatim>\<open>mesh_objects[0]\<close> on line 58.
\<close>

theorem no_mesh_objects_run:
  assumes "collect_mesh_objects objects = []"
  shows "computeUnionBounds (collect_mesh_objects objects) =
           \<lparr>min_x = PInf, min_y = PInf, min_z = PInf, max_x = NInf, max_y = NInf, max_z = NInf\<rparr> \<and>
         computeRecenterOffset (computeUnionBounds (collect_mesh_objects objects)) =
           \<lparr>vec_x = NaN, vec_y = NaN, vec_z = NInf\<rparr> \<and>
         applyOffset (collect_mesh_objects objects) off = [] \<and>
         recenter (collect_mesh_objects objects) = Inl IndexError"
  by (simp add: assms computeUnionBounds_def init_box_def computeRecenterOffset_def
      applyOffset_def recenter_def)

theorem no_mesh_objects_run_witness:
  "collect_mesh_objects [camera_object] = [] \<and>
   computeUnionBounds (collect_mesh_objects [camera_object]) =
     \<lparr>min_x = PInf, min_y = PInf, min_z = PInf, max_x = NInf, max_y = NInf, max_z = NInf\<rparr> \<and>
   recenter (collect_mesh_objects [camera_object]) = Inl IndexError"
proof -
  have h: "collect_mesh_objects [camera_object] = []"
    by (simp add: collect_mesh_objects_def camera_object_def)
  from no_mesh_objects_run [OF h] h show ?thesis by simp
qed

text \<open>
  C5. \<^const>\<open>applyOffset\<close> adds the offset to the location of every object and to
  nothing else: the local bounding-box corners, the rotation and scale block, the name
  and the type of each object are the same as before, in the same order.
\<close>

theorem applyOffset_frame:
  "map location (applyOffset mesh_objects off) = map (\<lambda>obj. vadd (location obj) off) mesh_objects \<and>
   map bound_box (applyOffset mesh_objects off) = map bound_box mesh_objects \<and>
   map rot_scale (applyOffset mesh_objects off) = map rot_scale mesh_objects \<and>
   map name (applyOffset mesh_objects off) = map name mesh_objects \<and>
   map obj_type (applyOffset mesh_objects off) = map obj_type mesh_objects"
  by (simp add: applyOffset_def comp_def)

text \<open>
  C6. The unit cube at (10, 5, 2): the union box is (9.5, 4.5, 1.5) .. (10.5, 5.5, 2.5),
  the offset is (-10, -5, -1.5), and the box evaluated again after the offset is applied
  is (-0.5, -0.5, 0) .. (0.5, 0.5, 1).
\<close>

theorem single_cube_scenario:
  "computeUnionBounds [cube_object] =
     \<lparr>min_x = Fin 9.5, min_y = Fin 4.5, min_z = Fin 1.5,
      max_x = Fin 10.5, max_y = Fin 5.5, max_z = Fin 2.5\<rparr> \<and>
   computeRecenterOffset (computeUnionBounds [cube_object]) =
     \<lparr>vec_x = Fin (- 10), vec_y = Fin (- 5), vec_z = Fin (- 1.5)\<rparr> \<and>
   computeUnionBounds
     (applyOffset [cube_object] (computeRecenterOffset (computeUnionBounds [cube_object]))) =
     \<lparr>min_x = Fin (- 0.5), min_y = Fin (- 0.5), min_z = Fin 0,
      max_x = Fin 0.5, max_y = Fin 0.5, max_z = Fin 1\<rparr>"
  by (simp add: run_defs example_defs)


text \<open>
  C8 as stated does not hold: with one listed file missing at the source the copy step
  copies the file that exists and prints a line for it, and prints nothing about the
  missing one.
\<close>

theorem texture_copy_counterexample:
  "copy_textures [''bark.tif'' \<mapsto> ''pixels''] [''bark.tif'', ''leaf.png'']
     \<lparr>export_dir = Map.empty, printed = []\<rparr> =
   \<lparr>export_dir = [''bark.tif'' \<mapsto> ''pixels''], printed = [''Copied: bark.tif'']\<rparr>"
  by (simp add: copy_textures_def copy_step_def)

text \<open>
  C8, amended. For every list of texture file names the copy step raises nothing; the
  export directory afterwards holds every listed file that exists at the source, with the
  source's content, and is otherwise unchanged; the output gains one line
  \<^verbatim>\<open>Copied: <name>\<close> per copied file, in list order, and no line for a missing file.
\<close>

theorem copy_textures_skips_missing:
  "export_dir (copy_textures texture_src texture_files s) =
     export_dir s ++ (texture_src |` set texture_files) \<and>
   printed (copy_textures texture_src texture_files s) =
     printed s @ map (\<lambda>f. ''Copied: '' @ f) (filter (\<lambda>f. texture_src f \<noteq> None) texture_files)"
proof (induction texture_files arbitrary: s)
  case Nil
  show ?case by (simp add: copy_textures_def)
next
  case (Cons f fs)
  have step: "copy_textures texture_src (f # fs) s = copy_textures texture_src fs (copy_step texture_src f s)"
    by (simp add: copy_textures_def)
  have "export_dir (copy_textures texture_src (f # fs) s) =
        (export_dir s ++ (texture_src |` {f})) ++ (texture_src |` set fs)"
    unfolding step using Cons [of "copy_step texture_src f s"] by (simp add: export_dir_copy_step)
  then have e: "export_dir (copy_textures texture_src (f # fs) s) =
        export_dir s ++ (texture_src |` set (f # fs))"
    by (simp only: map_add_assoc [symmetric] restrict_insert_add list.set)
  have p: "printed (copy_textures texture_src (f # fs) s) =
     printed s @ map (\<lambda>f. ''Copied: '' @ f) (filter (\<lambda>f. texture_src f \<noteq> None) (f # fs))"
    unfolding step using Cons [of "copy_step texture_src f s"] by (simp add: printed_copy_step)
  from e p show ?case by simp
qed

text \<open>
  C9. \<^const>\<open>computeUnionBounds\<close> returns the same box for every permutation of the
  sequence of mesh objects, and more generally for any two sequences whose visited world
  corners are the same up to order.
\<close>

theorem computeUnionBounds_order_independent:
  assumes "mset mesh_objects = mset mesh_objects' \<or>
           mset (visited_corners mesh_objects) = mset (visited_corners mesh_objects')"
  shows "computeUnionBounds mesh_objects = computeUnionBounds mesh_objects'"
proof -
  have "mset (visited_corners mesh_objects) = mset (visited_corners mesh_objects')"
    using assms mset_visited_corners by blast
  then show ?thesis
    unfolding computeUnionBounds_fold by (rule fold_bounds_step_mset)
qed

theorem computeUnionBounds_order_independent_witness:
  "mset [trunk_object, crown_object] = mset [crown_object, trunk_object] \<and>
   [trunk_object, crown_object] \<noteq> [crown_object, trunk_object] \<and>
   computeUnionBounds [trunk_object, crown_object] = computeUnionBounds [crown_object, trunk_object] \<and>
   mset (visited_corners [trunk_object]) =
     mset (visited_corners [trunk_object\<lparr>bound_box := reversed_corners (bound_box trunk_object)\<rparr>]) \<and>
   visited_corners [trunk_object] \<noteq>
     visited_corners [trunk_object\<lparr>bound_box := reversed_corners (bound_box trunk_object)\<rparr>] \<and>
   computeUnionBounds [trunk_object] =
     computeUnionBounds [trunk_object\<lparr>bound_box := reversed_corners (bound_box trunk_object)\<rparr>]"
proof -
  have p: "mset [trunk_object, crown_object] = mset [crown_object, trunk_object]"
    by simp
  have d: "[trunk_object, crown_object] \<noteq> [crown_object, trunk_object]"
    by (simp add: trunk_object_def crown_object_def)
  have q: "mset (visited_corners [trunk_object]) =
     mset (visited_corners [trunk_object\<lparr>bound_box := reversed_corners (bound_box trunk_object)\<rparr>])"
    by (simp add: visited_corners_def trunk_object_def axis_box_def world_corner_def)
  have e: "visited_corners [trunk_object] \<noteq>
     visited_corners [trunk_object\<lparr>bound_box := reversed_corners (bound_box trunk_object)\<rparr>]"
    by (simp add: visited_corners_def trunk_object_def axis_box_def world_corner_def identity3_def dot3_def)
  from p d q e computeUnionBounds_order_independent [OF disjI1 [OF p]]
    computeUnionBounds_order_independent [OF disjI2 [OF q]]
  show ?thesis by blast
qed

text \<open>
  C10. Two boxes that agree on min.x, max.x, min.y, max.y and min.z have the same offset,
  whatever their max.z.
\<close>

theorem computeRecenterOffset_ignores_max_z:
  assumes "min_x b = min_x b'" and "max_x b = max_x b'"
    and "min_y b = min_y b'" and "max_y b = max_y b'"
    and "min_z b = min_z b'"
  shows "computeRecenterOffset b = computeRecenterOffset b'"
  using assms by (simp add: computeRecenterOffset_def)

theorem computeRecenterOffset_ignores_max_z_witness:
  "computeRecenterOffset
     \<lparr>min_x = Fin 0, min_y = Fin 1, min_z = Fin 2, max_x = Fin 4, max_y = Fin 5, max_z = Fin 6\<rparr> =
   computeRecenterOffset
     \<lparr>min_x = Fin 0, min_y = Fin 1, min_z = Fin 2, max_x = Fin 4, max_y = Fin 5, max_z = Fin 9\<rparr> \<and>
   max_z \<lparr>min_x = Fin 0, min_y = Fin 1, min_z = Fin 2, max_x = Fin 4, max_y = Fin 5, max_z = Fin 6\<rparr> \<noteq>
   max_z \<lparr>min_x = Fin 0, min_y = Fin 1, min_z = Fin 2, max_x = Fin 4, max_y = Fin 5, max_z = Fin 9\<rparr>"
  using computeRecenterOffset_ignores_max_z
    [of "\<lparr>min_x = Fin 0, min_y = Fin 1, min_z = Fin 2, max_x = Fin 4, max_y = Fin 5, max_z = Fin 6\<rparr>"
        "\<lparr>min_x = Fin 0, min_y = Fin 1, min_z = Fin 2, max_x = Fin 4, max_y = Fin 5, max_z = Fin 9\<rparr>"]
  by simp

end
